theory Spec2Isabelle
  imports Complex_Main "HOL-Library.Sublist" "HOL-Library.Word"
begin

section \<open>Strings of the host language\<close>

text \<open>
  A string of the program is a sequence of UTF-16 code units: \<open>length\<close>, \<open>substring\<close>,
  \<open>includes\<close> and \<open>replace\<close> all count and compare code units. A string is therefore a
  list of 16-bit words, and a literal of the source is the image of an Isabelle literal
  under \<open>js\<close>, code unit by code unit.
\<close>

type_synonym jstring = "16 word list"

definition js :: "string \<Rightarrow> jstring" where
  "js s = map of_char s"

text \<open>\<open>s.includes(pat)\<close>: does \<open>pat\<close> occur in \<open>s\<close> at some position.\<close>

fun includes_str :: "jstring \<Rightarrow> jstring \<Rightarrow> bool" where
  "includes_str [] pat = (pat = [])"
| "includes_str (c # cs) pat = (prefix pat (c # cs) \<or> includes_str cs pat)"

text \<open>\<open>s.substring(0, n)\<close>: the first \<open>n\<close> code units, all of \<open>s\<close> when it is shorter.\<close>

definition substring0 :: "nat \<Rightarrow> jstring \<Rightarrow> jstring" where
  "substring0 n s = take n s"

text \<open>
  \<open>s.replace(pat, rep)\<close> with a string pattern: the first occurrence of \<open>pat\<close>, scanning
  from the left, is replaced and nothing else. (The replacement strings of the program,
  the empty string and \<open>/dashboard\<close>, hold no \<open>$\<close>, so no replacement pattern is
  expanded.)
\<close>

fun replace :: "jstring \<Rightarrow> jstring \<Rightarrow> jstring \<Rightarrow> jstring" where
  "replace pat rep [] = (if pat = [] then rep else [])"
| "replace pat rep (c # cs) =
     (if prefix pat (c # cs) then rep @ drop (length pat) (c # cs)
      else c # replace pat rep cs)"

text \<open>
  \<open>s.trim()\<close> removes the white space and line terminators of the language from both
  ends: tab, line feed, vertical tab, form feed, carriage return, space, no-break space,
  the Unicode space separators, the line and paragraph separators and the byte order mark.
\<close>

definition isWhiteSpace :: "16 word \<Rightarrow> bool" where
  "isWhiteSpace c =
     (c = 0x9 \<or> c = 0xA \<or> c = 0xB \<or> c = 0xC \<or> c = 0xD \<or> c = 0x20 \<or> c = 0xA0
      \<or> c = 0x1680 \<or> (0x2000 \<le> c \<and> c \<le> 0x200A) \<or> c = 0x2028 \<or> c = 0x2029
      \<or> c = 0x202F \<or> c = 0x205F \<or> c = 0x3000 \<or> c = 0xFEFF)"

definition trim :: "jstring \<Rightarrow> jstring" where
  "trim s = rev (dropWhile isWhiteSpace (rev (dropWhile isWhiteSpace s)))"

section \<open>Data model\<close>

record Preferences =
  apiKey :: jstring
  ycbUrl :: jstring

text \<open>An optional field of an interface is an \<open>option\<close>: \<open>None\<close> is \<open>undefined\<close>.\<close>

record Metadata =
  title :: "jstring option"
  author :: "jstring option"
  type_str :: "jstring option"
  ogDescription :: "jstring option"
  ogImages :: "jstring list option"

record HighlightResult =
  highlight_data :: jstring
  highlight_title :: "jstring option"
  highlight_author :: "jstring option"

record SearchResult =
  id_str :: jstring
  data :: jstring
  metadata :: Metadata
  similarity :: "real option"
  highlightResult :: "HighlightResult option"
  image_str :: "jstring option"

section \<open>Result normaliser\<close>

text \<open>
  \<open>getMetadataDisplay\<close> calls the platform's URL parser, \<open>new URL(s)\<close>, which either
  throws or yields a URL object whose \<open>hostname\<close> is read. The parser is no code of the
  repository: it is the parameter \<open>newURL\<close>, \<open>None\<close> when it throws and the hostname
  otherwise. The \<open>catch\<close> block is the \<open>None\<close> branch; it repeats the test for the
  knowledge base's own domain as the source does.
\<close>

definition getMetadataDisplay :: "(jstring \<Rightarrow> jstring option) \<Rightarrow> Metadata \<Rightarrow> jstring" where
  "getMetadataDisplay newURL md =
     (case author md of
        None \<Rightarrow> []
      | Some a \<Rightarrow>
          if a = [] then []
          else if includes_str a (js ''yourcommonbase.com'') then js ''Your Commonbase''
          else (case newURL a of
                  Some hostname \<Rightarrow> replace (js ''www.'') [] hostname
                | None \<Rightarrow>
                    if includes_str a (js ''yourcommonbase.com'') then js ''Your Commonbase''
                    else if length a > 30 then substring0 30 a @ js ''...''
                    else a))"

text \<open>
  The source label as the specification words it: the fixed label, else the hostname
  with a leading \<open>www.\<close> stripped, else the raw string cut to 30 characters.
\<close>

definition sourceLabel_as_specified :: "(jstring \<Rightarrow> jstring option) \<Rightarrow> jstring \<Rightarrow> jstring" where
  "sourceLabel_as_specified newURL a =
     (if includes_str a (js ''yourcommonbase.com'') then js ''Your Commonbase''
      else (case newURL a of
              Some hostname \<Rightarrow>
                if prefix (js ''www.'') hostname then drop 4 hostname else hostname
            | None \<Rightarrow> if length a > 30 then take 30 a @ js ''...'' else a))"

text \<open>
  For evaluating the code at concrete addresses: the hostnames the platform's parser
  yields for three absolute addresses. Every other string the examples below pass to the
  parser has no scheme, and the parser throws on it.
\<close>

definition sampleURL :: "jstring \<Rightarrow> jstring option" where
  "sampleURL s =
     (if s = js ''https://www.example.com/page'' then Some (js ''www.example.com'')
      else if s = js ''https://blog.www.example.com/page'' then Some (js ''blog.www.example.com'')
      else if s = js ''https://photos.archive.university-library.example.org/a''
        then Some (js ''photos.archive.university-library.example.org'')
      else None)"

text \<open>
  Title and subtitle of a list item are the expressions
  \<open>result.metadata?.title || result.data.substring(0, 60) + "..."\<close> and
  \<open>result.metadata?.ogDescription || result.data.substring(0, 100) + "..."\<close>, the same in
  both sections. \<open>||\<close> yields its right operand when the left one is \<open>undefined\<close> or the
  empty string.
\<close>

definition item_title :: "SearchResult \<Rightarrow> jstring" where
  "item_title result =
     (case title (metadata result) of
        Some t \<Rightarrow> if t \<noteq> [] then t else substring0 60 (data result) @ js ''...''
      | None \<Rightarrow> substring0 60 (data result) @ js ''...'')"

definition item_subtitle :: "SearchResult \<Rightarrow> jstring" where
  "item_subtitle result =
     (case ogDescription (metadata result) of
        Some d \<Rightarrow> if d \<noteq> [] then d else substring0 100 (data result) @ js ''...''
      | None \<Rightarrow> substring0 100 (data result) @ js ''...'')"

text \<open>Title and subtitle as the specification words them: the field if present.\<close>

definition item_title_as_specified :: "SearchResult \<Rightarrow> jstring" where
  "item_title_as_specified result =
     (case title (metadata result) of
        Some t \<Rightarrow> t
      | None \<Rightarrow> take 60 (data result) @ js ''...'')"

definition item_subtitle_as_specified :: "SearchResult \<Rightarrow> jstring" where
  "item_subtitle_as_specified result =
     (case ogDescription (metadata result) of
        Some d \<Rightarrow> d
      | None \<Rightarrow> take 100 (data result) @ js ''...'')"

definition getEntryUrl :: "Preferences \<Rightarrow> jstring \<Rightarrow> jstring" where
  "getEntryUrl preferences ident =
     (let baseUrl = replace (js ''/backend'') [] (ycbUrl preferences)
      in baseUrl @ js ''/dashboard/entry/'' @ ident)"

text \<open>
  The entry URL as the specification words it: the backend segment replaced by the
  dashboard segment, then \<open>/entry/{id}\<close> appended.
\<close>

definition entryUrl_as_specified :: "Preferences \<Rightarrow> jstring \<Rightarrow> jstring" where
  "entryUrl_as_specified preferences ident =
     replace (js ''/backend'') (js ''/dashboard'') (ycbUrl preferences) @ js ''/entry/'' @ ident"

section \<open>View state, effects and the replies of the services\<close>

text \<open>
  The state of the command is the six \<open>useState\<close> cells. What the command does to the
  outside is recorded beside them, in the order it happens: the toasts shown, the lines
  written with \<open>console.error\<close> (their fixed first argument), and the requests sent over
  the network. \<open>searchClient\<close> is \<open>None\<close> for \<open>null\<close> and otherwise holds the token the
  client was built with.
\<close>

datatype ToastStyle = Failure | Animated | Success

datatype Toast = Toast ToastStyle jstring jstring

datatype Request =
    TokenRequest jstring jstring
  | IndexQuery jstring jstring jstring nat
  | SearchRequest jstring jstring jstring nat real
  | ImagesRequest jstring jstring "jstring list"

record State =
  searchText :: jstring
  semanticResults :: "SearchResult list"
  isLoadingSemanticSearch :: bool
  searchClient :: "jstring option"
  meiliSearchResults :: "SearchResult list"
  isLoadingMeiliSearch :: bool
  toasts :: "Toast list"
  console :: "jstring list"
  requests :: "Request list"

text \<open>
  What a service answers is not decided by the program, so every reply is an argument.
  \<^item> Image lookup: \<open>ImagesError\<close> is any reply on which \<open>fetchImage\<close> throws inside its
    \<open>try\<close> (the transport fails, the body is no JSON, \<open>data.body.urls\<close> cannot be
    read); \<open>ImagesBody urls\<close> is a reply whose \<open>data.body.urls\<close> is the object \<open>urls\<close>.
    The image service is a function from the id asked for to its reply.
  \<^item> Search index: \<open>IndexError\<close> is any outcome on which
    \<open>searchClient.search(...)\<close> rejects or \<open>searchResults.results[0].hits.map\<close> throws;
    \<open>IndexHits hits\<close> is a reply with that array of hits.
  \<^item> Semantic endpoint: \<open>TransportError\<close> is a rejected \<open>fetch\<close>; \<open>HttpResponse status body\<close>
    is a response with that status, whose body is either an array of entries
    (\<open>Entries\<close>) or anything on which \<open>response.json()\<close> or \<open>results.map\<close> throws
    (\<open>Unusable\<close>).
  \<^item> Token endpoint: \<open>TokenTransportError\<close> is a rejected \<open>fetch\<close> or a body that is
    no JSON; \<open>TokenRefused e\<close> is a body with a truthy \<open>error\<close>; \<open>TokenGranted t\<close> is a
    body with the token \<open>t\<close> and no \<open>error\<close>. (A body with neither is left out: no
    statement below depends on the token.)
\<close>

datatype ImagesReply = ImagesError | ImagesBody "jstring \<Rightarrow> jstring option"

datatype IndexReply = IndexError | IndexHits "SearchResult list"

datatype SearchBody = Unusable | Entries "SearchResult list"

datatype SearchReply = TransportError | HttpResponse nat SearchBody

datatype TokenReply = TokenTransportError | TokenRefused jstring | TokenGranted jstring

text \<open>\<open>response.ok\<close>: the status is in the range 200 to 299.\<close>

definition ok :: "nat \<Rightarrow> bool" where
  "ok status = (200 \<le> status \<and> status \<le> 299)"

section \<open>Image resolver and hydration\<close>

text \<open>
  \<open>fetchImage\<close> sends one request carrying exactly the one id and returns
  \<open>data.body.urls[id]\<close>, or \<open>undefined\<close> on any failure. The model returns the request
  together with the result.
\<close>

definition fetchImage ::
  "Preferences \<Rightarrow> (jstring \<Rightarrow> ImagesReply) \<Rightarrow> jstring \<Rightarrow> jstring option \<times> Request" where
  "fetchImage preferences images ident =
     (case images ident of
        ImagesError \<Rightarrow> None
      | ImagesBody urls \<Rightarrow> urls ident,
      ImagesRequest (ycbUrl preferences @ js ''/fetchImagesByIDs'') (apiKey preferences) [ident])"

text \<open>
  The callback mapped over a batch, the same in both searches: an entry of type
  \<open>image\<close> is copied with its \<open>image\<close> field set to what \<open>fetchImage\<close> returned, every
  other entry is returned as it is.
\<close>

definition withImage ::
  "Preferences \<Rightarrow> (jstring \<Rightarrow> ImagesReply) \<Rightarrow> SearchResult \<Rightarrow> SearchResult \<times> Request list" where
  "withImage preferences images hit =
     (if type_str (metadata hit) = Some (js ''image'')
      then (let (imageUrl, request) = fetchImage preferences images (id_str hit)
            in (hit\<lparr>image_str := imageUrl\<rparr>, [request]))
      else (hit, []))"

text \<open>
  \<open>Promise.all(hits.map(async ...))\<close>: every callback runs up to its \<open>fetch\<close> when it is
  called, so the requests leave in the order of the batch, and the results come back in
  the order of the batch whatever the order of the replies.
\<close>

definition resultsWithImages ::
  "Preferences \<Rightarrow> (jstring \<Rightarrow> ImagesReply) \<Rightarrow> SearchResult list
     \<Rightarrow> SearchResult list \<times> Request list" where
  "resultsWithImages preferences images hits =
     (map (\<lambda>hit. fst (withImage preferences images hit)) hits,
      concat (map (\<lambda>hit. snd (withImage preferences images hit)) hits))"

section \<open>Lexical search\<close>

text \<open>
  An \<open>async\<close> function runs in two parts: from the call to its first \<open>await\<close> on the
  network, and from the reply to its end. \<open>performMeiliSearch_begin\<close> is the first part;
  its second component tells whether a query is now in flight.
  \<open>performMeiliSearch_settle\<close> is the second part, with the \<open>catch\<close> and \<open>finally\<close>
  blocks. \<open>performMeiliSearch\<close> is the whole call when nothing else happens in
  between.
\<close>

definition performMeiliSearch_begin :: "jstring \<Rightarrow> State \<Rightarrow> State \<times> bool" where
  "performMeiliSearch_begin query st =
     (case searchClient st of
        None \<Rightarrow> (st\<lparr>meiliSearchResults := []\<rparr>, False)
      | Some token \<Rightarrow>
          if trim query = [] then (st\<lparr>meiliSearchResults := []\<rparr>, False)
          else (st\<lparr>isLoadingMeiliSearch := True,
                    requests := requests st @ [IndexQuery token (js ''ycb_fts_staging'') query 20]\<rparr>,
                True))"

definition performMeiliSearch_settle ::
  "Preferences \<Rightarrow> (jstring \<Rightarrow> ImagesReply) \<Rightarrow> IndexReply \<Rightarrow> State \<Rightarrow> State" where
  "performMeiliSearch_settle preferences images reply st =
     (case reply of
        IndexHits hits \<Rightarrow>
          (let (results, sent) = resultsWithImages preferences images hits
           in st\<lparr>requests := requests st @ sent,
                 meiliSearchResults := results,
                 isLoadingMeiliSearch := False\<rparr>)
      | IndexError \<Rightarrow>
          st\<lparr>console := console st @ [js ''MeiliSearch error:''],
              meiliSearchResults := [],
              isLoadingMeiliSearch := False\<rparr>)"

definition performMeiliSearch ::
  "Preferences \<Rightarrow> (jstring \<Rightarrow> ImagesReply) \<Rightarrow> IndexReply \<Rightarrow> jstring \<Rightarrow> State \<Rightarrow> State" where
  "performMeiliSearch preferences images reply query st =
     (case performMeiliSearch_begin query st of
        (st', False) \<Rightarrow> st'
      | (st', True) \<Rightarrow> performMeiliSearch_settle preferences images reply st')"

section \<open>Semantic search\<close>

definition performSemanticSearch_begin :: "Preferences \<Rightarrow> jstring \<Rightarrow> State \<Rightarrow> State \<times> bool" where
  "performSemanticSearch_begin preferences query st =
     (if trim query = [] then (st\<lparr>semanticResults := []\<rparr>, False)
      else (st\<lparr>isLoadingSemanticSearch := True,
                requests := requests st @
                  [SearchRequest (ycbUrl preferences @ js ''/search'') (apiKey preferences)
                     query 5 (35 / 100)]\<rparr>,
            True))"

text \<open>The \<open>catch\<close> block of \<open>performSemanticSearch\<close>, followed by its \<open>finally\<close> block.\<close>

definition semanticSearchFailed :: "State \<Rightarrow> State" where
  "semanticSearchFailed st =
     st\<lparr>console := console st @ [js ''Semantic search error:''],
         toasts := toasts st @
           [Toast Failure (js ''Search Error'') (js ''Failed to perform semantic search'')],
         semanticResults := [],
         isLoadingSemanticSearch := False\<rparr>"

definition performSemanticSearch_settle ::
  "Preferences \<Rightarrow> (jstring \<Rightarrow> ImagesReply) \<Rightarrow> SearchReply \<Rightarrow> State \<Rightarrow> State" where
  "performSemanticSearch_settle preferences images reply st =
     (case reply of
        TransportError \<Rightarrow> semanticSearchFailed st
      | HttpResponse status body \<Rightarrow>
          if \<not> ok status then semanticSearchFailed st
          else (case body of
                  Unusable \<Rightarrow> semanticSearchFailed st
                | Entries results \<Rightarrow>
                    (let (results', sent) = resultsWithImages preferences images results
                     in st\<lparr>requests := requests st @ sent,
                           semanticResults := results',
                           isLoadingSemanticSearch := False\<rparr>)))"

definition performSemanticSearch ::
  "Preferences \<Rightarrow> (jstring \<Rightarrow> ImagesReply) \<Rightarrow> SearchReply \<Rightarrow> jstring \<Rightarrow> State \<Rightarrow> State" where
  "performSemanticSearch preferences images reply query st =
     (case performSemanticSearch_begin preferences query st of
        (st', False) \<Rightarrow> st'
      | (st', True) \<Rightarrow> performSemanticSearch_settle preferences images reply st')"

section \<open>Search orchestrator\<close>

text \<open>
  \<open>handleSearchTextChange\<close> is synchronous: it stores the text, starts the lexical search
  (which runs up to its \<open>await\<close>) and clears the semantic results when the list it was
  rendered with is not empty. Its second component tells whether it left a lexical
  query in flight.
\<close>

definition handleSearchTextChange :: "jstring \<Rightarrow> State \<Rightarrow> State \<times> bool" where
  "handleSearchTextChange text st =
     (let (st', inFlight) = performMeiliSearch_begin text (st\<lparr>searchText := text\<rparr>)
      in (if length (semanticResults st) > 0 then st'\<lparr>semanticResults := []\<rparr> else st',
          inFlight))"

definition handleEnterPress :: "Preferences \<Rightarrow> State \<Rightarrow> State \<times> bool" where
  "handleEnterPress preferences st =
     (if trim (searchText st) \<noteq> [] then performSemanticSearch_begin preferences (searchText st) st
      else (st, False))"

text \<open>
  The effect at mount starts \<open>initializeMeiliSearch\<close> when the API key is not empty; the
  reply of the token endpoint either installs the search client or is reported.
\<close>

definition initialState :: "Preferences \<Rightarrow> State" where
  "initialState preferences =
     \<lparr>searchText = [], semanticResults = [], isLoadingSemanticSearch = False,
      searchClient = None, meiliSearchResults = [], isLoadingMeiliSearch = False,
      toasts = [], console = [],
      requests = (if apiKey preferences \<noteq> []
                  then [TokenRequest (ycbUrl preferences @ js ''/token'') (apiKey preferences)]
                  else [])\<rparr>"

definition initializeMeiliSearch_settle :: "TokenReply \<Rightarrow> State \<Rightarrow> State" where
  "initializeMeiliSearch_settle reply st =
     (case reply of
        TokenGranted token \<Rightarrow> st\<lparr>searchClient := Some token\<rparr>
      | _ \<Rightarrow>
          st\<lparr>console := console st @ [js ''Failed to initialize MeiliSearch:''],
              toasts := toasts st @
                [Toast Failure (js ''Search Error'')
                   (js ''Failed to initialize search. Check your API key.'')]\<rparr>)"

text \<open>
  The action that calls \<open>handleEnterPress\<close> is offered on every item of the section of
  lexical results, and on the item of the section \<open>No Results\<close>, which is rendered when
  the text is not empty, both result sequences are empty and nothing is loading.
\<close>

definition semanticSearchOffered :: "State \<Rightarrow> bool" where
  "semanticSearchOffered st =
     (length (meiliSearchResults st) > 0
      \<or> (length (searchText st) > 0 \<and> length (meiliSearchResults st) = 0
          \<and> length (semanticResults st) = 0
          \<and> \<not> isLoadingMeiliSearch st \<and> \<not> isLoadingSemanticSearch st))"

text \<open>
  Nothing cancels a request, so the view together with the requests still in flight is
  the state of the running command. An event is a call of a handler by the user or the
  arrival of one reply; replies arrive in any order, so a reply names the position of
  its request among those in flight. The text can be changed at any time; the semantic
  search can be triggered when its action is offered. A search settles in one step: the
  replies to the image requests of its batch are taken to arrive with the batch, and a
  search counts as in flight until its results are stored.
\<close>

record System =
  view :: State
  tokenInFlight :: bool
  lexicalInFlight :: "jstring list"
  semanticInFlight :: "jstring list"

datatype Event =
    SearchTextChange jstring
  | EnterPress
  | TokenSettles TokenReply
  | LexicalSettles nat IndexReply
  | SemanticSettles nat SearchReply

definition mount :: "Preferences \<Rightarrow> System" where
  "mount preferences =
     \<lparr>view = initialState preferences, tokenInFlight = (apiKey preferences \<noteq> []),
      lexicalInFlight = [], semanticInFlight = []\<rparr>"

definition without :: "nat \<Rightarrow> 'a list \<Rightarrow> 'a list" where
  "without i xs = take i xs @ drop (Suc i) xs"

fun fire ::
  "Preferences \<Rightarrow> (jstring \<Rightarrow> ImagesReply) \<Rightarrow> Event \<Rightarrow> System \<Rightarrow> System option" where
  "fire preferences images (SearchTextChange text) s =
     (let (st, inFlight) = handleSearchTextChange text (view s)
      in Some (s\<lparr>view := st,
                  lexicalInFlight := lexicalInFlight s @ (if inFlight then [text] else [])\<rparr>))"
| "fire preferences images EnterPress s =
     (if semanticSearchOffered (view s)
      then (let (st, inFlight) = handleEnterPress preferences (view s)
            in Some (s\<lparr>view := st,
                        semanticInFlight :=
                          semanticInFlight s @ (if inFlight then [searchText (view s)] else [])\<rparr>))
      else None)"
| "fire preferences images (TokenSettles reply) s =
     (if tokenInFlight s
      then Some (s\<lparr>view := initializeMeiliSearch_settle reply (view s), tokenInFlight := False\<rparr>)
      else None)"
| "fire preferences images (LexicalSettles i reply) s =
     (if i < length (lexicalInFlight s)
      then Some (s\<lparr>view := performMeiliSearch_settle preferences images reply (view s),
                    lexicalInFlight := without i (lexicalInFlight s)\<rparr>)
      else None)"
| "fire preferences images (SemanticSettles i reply) s =
     (if i < length (semanticInFlight s)
      then Some (s\<lparr>view := performSemanticSearch_settle preferences images reply (view s),
                    semanticInFlight := without i (semanticInFlight s)\<rparr>)
      else None)"

fun run ::
  "Preferences \<Rightarrow> (jstring \<Rightarrow> ImagesReply) \<Rightarrow> Event list \<Rightarrow> System \<Rightarrow> System option" where
  "run preferences images [] s = Some s"
| "run preferences images (e # es) s =
     (case fire preferences images e s of
        None \<Rightarrow> None
      | Some s' \<Rightarrow> run preferences images es s')"

section \<open>Example data\<close>

text \<open>
  Concrete inputs for the examples that follow the theorems: the default preferences
  with a key, the view once the search client is installed, a text entry and an image
  entry as the services return them, and an image service that knows a URL for every id.
\<close>

abbreviation defaultPreferences :: Preferences where
  "defaultPreferences \<equiv> \<lparr>apiKey = js ''key'', ycbUrl = js ''https://yourcommonbase.com/backend''\<rparr>"

abbreviation readyState :: State where
  "readyState \<equiv> (initialState defaultPreferences)\<lparr>searchClient := Some (js ''token'')\<rparr>"

abbreviation textEntry :: SearchResult where
  "textEntry \<equiv>
     \<lparr>id_str = js ''e1'', data = js ''some text'',
      metadata = \<lparr>title = Some (js ''A title''), author = Some (js ''https://www.example.com/page''),
                  type_str = Some (js ''text''), ogDescription = None, ogImages = None\<rparr>,
      similarity = None, highlightResult = None, image_str = None\<rparr>"

abbreviation imageEntry :: SearchResult where
  "imageEntry \<equiv>
     \<lparr>id_str = js ''e2'', data = js ''a picture'',
      metadata = \<lparr>title = None, author = None,
                  type_str = Some (js ''image''), ogDescription = Some (js ''A description''),
                  ogImages = None\<rparr>,
      similarity = None, highlightResult = None, image_str = None\<rparr>"

abbreviation imageService :: "jstring \<Rightarrow> ImagesReply" where
  "imageService \<equiv> (\<lambda>ident. ImagesBody (\<lambda>key. Some (js ''https://img.example.com/'' @ key)))"

abbreviation authoredBy :: "jstring \<Rightarrow> Metadata" where
  "authoredBy a \<equiv>
     \<lparr>title = None, author = Some a, type_str = None, ogDescription = None, ogImages = None\<rparr>"

text \<open>
  The running command after the token was granted, \<open>r\<close> was typed, the lexical results
  for it arrived, the semantic search was triggered from one of them and its reply
  arrived: both sections are on display and nothing is in flight.
\<close>

abbreviation showingSemanticResults :: System where
  "showingSemanticResults \<equiv>
     \<lparr>view =
        \<lparr>searchText = js ''r'', semanticResults = [textEntry], isLoadingSemanticSearch = False,
         searchClient = Some (js ''token''), meiliSearchResults = [textEntry],
         isLoadingMeiliSearch = False, toasts = [], console = [],
         requests =
           [TokenRequest (js ''https://yourcommonbase.com/backend/token'') (js ''key''),
            IndexQuery (js ''token'') (js ''ycb_fts_staging'') (js ''r'') 20,
            SearchRequest (js ''https://yourcommonbase.com/backend/search'') (js ''key'')
              (js ''r'') 5 (35 / 100)]\<rparr>,
      tokenInFlight = False, lexicalInFlight = [], semanticInFlight = []\<rparr>"

section \<open>Facts about the string operations\<close>

lemma includes_str_sublist: "includes_str s pat \<longleftrightarrow> sublist pat s"
  by (induction s) (auto simp: sublist_Cons_right)

lemma replace_absent: "\<not> includes_str s pat \<Longrightarrow> replace pat rep s = s"
  by (induction s) auto

lemma prefix_append_butlast:
  assumes "pre \<noteq> []"
  shows "prefix pat (pre @ pat @ post) \<longleftrightarrow> prefix pat (pre @ butlast pat)"
proof (cases "pat = []")
  case True
  then show ?thesis by simp
next
  case False
  have len: "length pat \<le> length (pre @ butlast pat)"
    using assms False by (cases pre) auto
  have "take (length pat) (pre @ pat @ post) = take (length pat) (pre @ butlast pat)"
  proof -
    have "pre @ pat @ post = (pre @ butlast pat) @ (last pat # post)"
      using False by simp
    then show ?thesis using len by (metis take_append append.right_neutral diff_is_0_eq take_0)
  qed
  then show ?thesis
    using len by (metis prefix_def append_eq_conv_conj append_take_drop_id)
qed

lemma replace_first:
  "\<not> includes_str (pre @ butlast pat) pat \<Longrightarrow>
   replace pat rep (pre @ pat @ post) = pre @ rep @ post"
proof (induction pre)
  case Nil
  then have "pat \<noteq> []" by (cases pat) auto
  then show ?case by (cases pat) auto
next
  case (Cons x xs)
  then have np: "\<not> prefix pat ((x # xs) @ butlast pat)"
    and ni: "\<not> includes_str (xs @ butlast pat) pat" by auto
  from np have "\<not> prefix pat ((x # xs) @ pat @ post)"
    using prefix_append_butlast [of "x # xs" pat post] by simp
  then show ?case using Cons.IH [OF ni] by simp
qed

lemma replace_prefix:
  "pat \<noteq> [] \<Longrightarrow> prefix pat s \<Longrightarrow> replace pat rep s = rep @ drop (length pat) s"
  by (cases s) auto

lemma sublist_append_foreign:
  assumes "pat \<noteq> []" and "last pat \<notin> set suf" and "sublist pat (xs @ suf)"
  shows "sublist pat xs"
proof -
  from assms(3) consider "sublist pat xs" | "sublist pat suf"
    | xs1 xs2 where "pat = xs1 @ xs2" "suffix xs1 xs" "prefix xs2 suf"
    by (auto simp: sublist_append)
  then show ?thesis
  proof cases
    case 1
    then show ?thesis .
  next
    case 2
    then have "set pat \<subseteq> set suf" by (rule set_mono_sublist)
    with assms(1,2) show ?thesis using last_in_set by blast
  next
    case 3
    show ?thesis
    proof (cases "xs2 = []")
      case True
      with 3 show ?thesis by (simp add: suffix_imp_sublist)
    next
      case False
      then have "last pat = last xs2" using 3(1) by simp
      moreover have "set xs2 \<subseteq> set suf" using 3(3) by (rule set_mono_prefix)
      ultimately show ?thesis using assms(2) False last_in_set by fastforce
    qed
  qed
qed

section \<open>Source label\<close>

text \<open>
  Cutting a string that does not hold the knowledge base's domain and appending the
  ellipsis cannot produce the domain: the domain ends in \<open>m\<close>, the ellipsis holds dots.
\<close>

lemma truncated_excludes_domain:
  assumes "\<not> includes_str a (js ''yourcommonbase.com'')"
  shows "\<not> includes_str (take 30 a @ js ''...'') (js ''yourcommonbase.com'')"
proof
  assume "includes_str (take 30 a @ js ''...'') (js ''yourcommonbase.com'')"
  then have "sublist (js ''yourcommonbase.com'') (take 30 a @ js ''...'')"
    by (simp add: includes_str_sublist)
  moreover have "js ''yourcommonbase.com'' \<noteq> []"
    and "last (js ''yourcommonbase.com'') \<notin> set (js ''...'')"
    by (simp_all add: js_def)
  ultimately have "sublist (js ''yourcommonbase.com'') (take 30 a)"
    by (metis sublist_append_foreign)
  moreover have "sublist (take 30 a) a" by simp
  ultimately have "sublist (js ''yourcommonbase.com'') a"
    by (rule sublist_order.order_trans)
  with assms show False by (simp add: includes_str_sublist)
qed

text \<open>
  Where the code and the specification's wording of the source label agree: on every
  non-empty author whose hostname, if it has one, holds \<open>www.\<close> at its start or not at
  all.
\<close>

lemma getMetadataDisplay_as_specified:
  assumes "author md = Some a" and "a \<noteq> []"
    and "\<forall>h. newURL a = Some h \<longrightarrow> prefix (js ''www.'') h \<or> \<not> includes_str h (js ''www.'')"
  shows "getMetadataDisplay newURL md = sourceLabel_as_specified newURL a"
proof (cases "newURL a")
  case None
  with assms(1,2) show ?thesis
    by (simp add: getMetadataDisplay_def sourceLabel_as_specified_def substring0_def)
next
  case (Some h)
  have "replace (js ''www.'') [] h = (if prefix (js ''www.'') h then drop 4 h else h)"
  proof (cases "prefix (js ''www.'') h")
    case True
    have "js ''www.'' \<noteq> []" and "length (js ''www.'') = 4" by (simp_all add: js_def)
    with True show ?thesis using replace_prefix [of "js ''www.''" h "[]"] by simp
  next
    case False
    with assms(3) Some have "\<not> includes_str h (js ''www.'')" by simp
    with False show ?thesis by (simp add: replace_absent)
  qed
  with assms(1,2) Some show ?thesis
    by (simp add: getMetadataDisplay_def sourceLabel_as_specified_def)
qed

text \<open>
  C1. The claim: an author holding \<open>yourcommonbase.com\<close> gives the fixed label; otherwise
  an author that parses as a URL gives its hostname with a leading \<open>www.\<close> stripped;
  otherwise the raw string cut to 30 characters with an ellipsis. The code strips with
  \<open>hostname.replace('www.', '')\<close>, which removes the first \<open>www.\<close> wherever it stands.
  For the author \<open>https://blog.www.example.com/page\<close> the hostname is
  \<open>blog.www.example.com\<close>; it has no leading \<open>www.\<close>, so the claim's label is the
  hostname itself, and the code returns \<open>blog.example.com\<close>.
\<close>

theorem getMetadataDisplay_inner_www:
  "getMetadataDisplay sampleURL (authoredBy (js ''https://blog.www.example.com/page''))
     = js ''blog.example.com''
   \<and> sourceLabel_as_specified sampleURL (js ''https://blog.www.example.com/page'')
       = js ''blog.www.example.com''
   \<and> getMetadataDisplay sampleURL (authoredBy (js ''https://www.example.com/page''))
       = js ''example.com''"
  by (simp add: getMetadataDisplay_def sourceLabel_as_specified_def sampleURL_def js_def)

text \<open>
  C2, as stated: applying the source-label derivation to its own output yields that
  output again, for every input. A hostname of more than 30 characters is returned
  whole by the first application; it does not parse as a URL, so the second application
  cuts it to 30 characters and appends the ellipsis.
\<close>

theorem getMetadataDisplay_not_idempotent:
  "getMetadataDisplay sampleURL
     (authoredBy (js ''https://photos.archive.university-library.example.org/a''))
     = js ''photos.archive.university-library.example.org''
   \<and> getMetadataDisplay sampleURL
       (authoredBy (getMetadataDisplay sampleURL
          (authoredBy (js ''https://photos.archive.university-library.example.org/a''))))
     = js ''photos.archive.university-libr...''
   \<and> getMetadataDisplay sampleURL
       (authoredBy (getMetadataDisplay sampleURL
          (authoredBy (js ''https://photos.archive.university-library.example.org/a''))))
     \<noteq> getMetadataDisplay sampleURL
       (authoredBy (js ''https://photos.archive.university-library.example.org/a''))"
  by (simp add: getMetadataDisplay_def sampleURL_def substring0_def js_def)

text \<open>
  C2, amended. Applying the source-label derivation to its own output yields that
  output again whenever the output does not itself parse as a URL and, if the first
  application returned a hostname, the stripped hostname has at most 30 characters and
  does not hold \<open>yourcommonbase.com\<close>. This covers the fixed label, the empty label, and
  raw and truncated text, which a second application leaves as they are.
\<close>

theorem getMetadataDisplay_idempotent_when:
  assumes unparsed: "newURL (getMetadataDisplay newURL md) = None"
    and short: "\<forall>a hostname. author md = Some a \<and> \<not> includes_str a (js ''yourcommonbase.com'')
        \<and> newURL a = Some hostname \<longrightarrow>
          length (replace (js ''www.'') [] hostname) \<le> 30
          \<and> \<not> includes_str (replace (js ''www.'') [] hostname) (js ''yourcommonbase.com'')"
  shows "getMetadataDisplay newURL (md\<lparr>author := Some (getMetadataDisplay newURL md)\<rparr>)
     = getMetadataDisplay newURL md"
proof (cases "author md")
  case None
  then show ?thesis by (simp add: getMetadataDisplay_def)
next
  case (Some a)
  have label: "\<not> includes_str (js ''Your Commonbase'') (js ''yourcommonbase.com'')"
    "length (js ''Your Commonbase'') \<le> 30" "js ''Your Commonbase'' \<noteq> []"
    by (simp_all add: js_def)
  consider (empty) "a = []"
    | (own) "a \<noteq> []" "includes_str a (js ''yourcommonbase.com'')"
    | (host) h where "a \<noteq> []" "\<not> includes_str a (js ''yourcommonbase.com'')" "newURL a = Some h"
    | (long) "a \<noteq> []" "\<not> includes_str a (js ''yourcommonbase.com'')" "newURL a = None"
        "length a > 30"
    | (raw) "a \<noteq> []" "\<not> includes_str a (js ''yourcommonbase.com'')" "newURL a = None"
        "length a \<le> 30"
    by (cases "newURL a"; cases "a = []"; cases "includes_str a (js ''yourcommonbase.com'')";
        cases "length a > 30") auto
  then show ?thesis
  proof cases
    case empty
    with Some show ?thesis by (simp add: getMetadataDisplay_def)
  next
    case own
    with Some have out: "getMetadataDisplay newURL md = js ''Your Commonbase''"
      by (simp add: getMetadataDisplay_def)
    with unparsed have "newURL (js ''Your Commonbase'') = None" by simp
    with label show ?thesis unfolding out by (simp add: getMetadataDisplay_def)
  next
    case host
    with Some have out: "getMetadataDisplay newURL md = replace (js ''www.'') [] h"
      by (simp add: getMetadataDisplay_def)
    from short Some host have "length (replace (js ''www.'') [] h) \<le> 30"
      and "\<not> includes_str (replace (js ''www.'') [] h) (js ''yourcommonbase.com'')" by auto
    moreover from unparsed out have "newURL (replace (js ''www.'') [] h) = None" by simp
    ultimately show ?thesis unfolding out by (simp add: getMetadataDisplay_def)
  next
    case long
    with Some have out: "getMetadataDisplay newURL md = take 30 a @ js ''...''"
      by (simp add: getMetadataDisplay_def substring0_def)
    from long have "\<not> includes_str (take 30 a @ js ''...'') (js ''yourcommonbase.com'')"
      by (simp add: truncated_excludes_domain)
    moreover from unparsed out have "newURL (take 30 a @ js ''...'') = None" by simp
    moreover have "length (js ''...'') = 3" by (simp add: js_def)
    ultimately show ?thesis
      using long unfolding out by (simp add: getMetadataDisplay_def substring0_def)
  next
    case raw
    with Some have out: "getMetadataDisplay newURL md = a"
      by (simp add: getMetadataDisplay_def)
    with raw Some show ?thesis by (simp add: getMetadataDisplay_def)
  qed
qed

text \<open>
  The amended claim at a hostname (\<open>www.example.com\<close>, stripped to \<open>example.com\<close>), at
  an author holding the knowledge base's domain, and at a long free text.
\<close>

theorem getMetadataDisplay_idempotent_when_witness:
  "sampleURL (js ''example.com'') = None
   \<and> length (replace (js ''www.'') [] (js ''www.example.com'')) \<le> 30
   \<and> \<not> includes_str (replace (js ''www.'') [] (js ''www.example.com'')) (js ''yourcommonbase.com'')
   \<and> getMetadataDisplay sampleURL (authoredBy (js ''https://www.example.com/page''))
       = js ''example.com''
   \<and> getMetadataDisplay sampleURL (authoredBy (js ''example.com'')) = js ''example.com''
   \<and> sampleURL (js ''Your Commonbase'') = None
   \<and> getMetadataDisplay sampleURL (authoredBy (js ''saved from yourcommonbase.com''))
       = js ''Your Commonbase''
   \<and> getMetadataDisplay sampleURL (authoredBy (js ''Your Commonbase'')) = js ''Your Commonbase''
   \<and> sampleURL (js ''Notes from the reading group, ...'') = None
   \<and> getMetadataDisplay sampleURL (authoredBy (js ''Notes from the reading group, spring term''))
       = js ''Notes from the reading group, ...''
   \<and> getMetadataDisplay sampleURL (authoredBy (js ''Notes from the reading group, ...''))
       = js ''Notes from the reading group, ...''"
  using getMetadataDisplay_idempotent_when
      [of sampleURL "authoredBy (js ''https://www.example.com/page'')"]
    getMetadataDisplay_idempotent_when
      [of sampleURL "authoredBy (js ''saved from yourcommonbase.com'')"]
    getMetadataDisplay_idempotent_when
      [of sampleURL "authoredBy (js ''Notes from the reading group, spring term'')"]
  by (simp add: getMetadataDisplay_def sampleURL_def substring0_def js_def)

section \<open>Title and subtitle\<close>

text \<open>
  C8, as stated: the title is \<open>metadata.title\<close> if present, the subtitle is
  \<open>metadata.ogDescription\<close> if present. A title that is present and empty is not shown:
  \<open>||\<close> falls through to the text of the entry.
\<close>

theorem empty_title_counterexample:
  "title (metadata (textEntry\<lparr>metadata := (metadata textEntry)\<lparr>title := Some []\<rparr>\<rparr>)) = Some []
   \<and> item_title (textEntry\<lparr>metadata := (metadata textEntry)\<lparr>title := Some []\<rparr>\<rparr>)
       = js ''some text...''
   \<and> item_title_as_specified (textEntry\<lparr>metadata := (metadata textEntry)\<lparr>title := Some []\<rparr>\<rparr>)
       = []
   \<and> item_title (textEntry\<lparr>metadata := (metadata textEntry)\<lparr>title := Some []\<rparr>\<rparr>)
       \<noteq> item_title_as_specified
           (textEntry\<lparr>metadata := (metadata textEntry)\<lparr>title := Some []\<rparr>\<rparr>)
   \<and> item_subtitle
         (textEntry\<lparr>metadata := (metadata textEntry)\<lparr>ogDescription := Some []\<rparr>\<rparr>)
       \<noteq> item_subtitle_as_specified
           (textEntry\<lparr>metadata := (metadata textEntry)\<lparr>ogDescription := Some []\<rparr>\<rparr>)"
  by (simp add: item_title_def item_title_as_specified_def item_subtitle_def
      item_subtitle_as_specified_def substring0_def js_def)

text \<open>
  C8, amended. For every displayed entry, the title is \<open>metadata.title\<close> if it is present
  and not empty, and otherwise the first 60 characters of \<open>data\<close> followed by the
  ellipsis; the subtitle is \<open>metadata.ogDescription\<close> if it is present and not empty, and
  otherwise the first 100 characters of \<open>data\<close> followed by the ellipsis.
\<close>

theorem item_title_and_subtitle:
  "(title (metadata result) = Some t \<and> t \<noteq> [] \<longrightarrow> item_title result = t)
   \<and> (title (metadata result) = None \<or> title (metadata result) = Some [] \<longrightarrow>
        item_title result = take 60 (data result) @ js ''...'')
   \<and> (ogDescription (metadata result) = Some d \<and> d \<noteq> [] \<longrightarrow> item_subtitle result = d)
   \<and> (ogDescription (metadata result) = None \<or> ogDescription (metadata result) = Some [] \<longrightarrow>
        item_subtitle result = take 100 (data result) @ js ''...'')"
  by (auto simp: item_title_def item_subtitle_def substring0_def)

theorem item_title_and_subtitle_witness:
  "title (metadata textEntry) = Some (js ''A title'') \<and> js ''A title'' \<noteq> []
   \<and> item_title textEntry = js ''A title''
   \<and> ogDescription (metadata textEntry) = None
   \<and> item_subtitle textEntry = js ''some text...''
   \<and> title (metadata imageEntry) = None
   \<and> item_title imageEntry = js ''a picture...''
   \<and> ogDescription (metadata imageEntry) = Some (js ''A description'') \<and> js ''A description'' \<noteq> []
   \<and> item_subtitle imageEntry = js ''A description''"
  using item_title_and_subtitle [of textEntry "js ''A title''" "[]"]
    item_title_and_subtitle [of imageEntry "[]" "js ''A description''"]
  by (simp add: js_def)

section \<open>Entry URL\<close>

text \<open>
  In the statements below, \<open>\<not> includes_str (pre @ butlast pat) pat\<close> says that no
  occurrence of \<open>pat\<close> starts inside \<open>pre\<close>: in \<open>pre @ pat @ post\<close> the occurrence right
  after \<open>pre\<close> is then the first one.
\<close>

lemma getEntryUrl_suffix: "suffix (js ''/entry/'' @ ident) (getEntryUrl preferences ident)"
proof -
  have "js ''/dashboard/entry/'' = js ''/dashboard'' @ js ''/entry/''"
    by (simp add: js_def)
  then have "getEntryUrl preferences ident =
      (replace (js ''/backend'') [] (ycbUrl preferences) @ js ''/dashboard'') @ (js ''/entry/'' @ ident)"
    by (simp add: getEntryUrl_def)
  then show ?thesis
    unfolding suffix_def by blast
qed

text \<open>
  C10. For every entry id and every configured base URL, \<open>getEntryUrl\<close> deletes the first
  occurrence of \<open>/backend\<close> from the base URL and nothing else (a later occurrence stays
  where it is), then appends \<open>/dashboard/entry/\<close> and the id. A base URL without
  \<open>/backend\<close> is used unchanged. The result always ends with \<open>/entry/\<close> followed by the id.
\<close>

theorem getEntryUrl_deletes_first_backend:
  "(ycbUrl preferences = pre @ js ''/backend'' @ post
      \<and> \<not> includes_str (pre @ butlast (js ''/backend'')) (js ''/backend'') \<longrightarrow>
      getEntryUrl preferences ident = pre @ post @ js ''/dashboard/entry/'' @ ident)
   \<and> (\<not> includes_str (ycbUrl preferences) (js ''/backend'') \<longrightarrow>
      getEntryUrl preferences ident = ycbUrl preferences @ js ''/dashboard/entry/'' @ ident)
   \<and> suffix (js ''/entry/'' @ ident) (getEntryUrl preferences ident)"
proof (intro conjI impI)
  assume a: "ycbUrl preferences = pre @ js ''/backend'' @ post
      \<and> \<not> includes_str (pre @ butlast (js ''/backend'')) (js ''/backend'')"
  then have "replace (js ''/backend'') [] (pre @ js ''/backend'' @ post) = pre @ [] @ post"
    by (intro replace_first) simp
  with a show "getEntryUrl preferences ident = pre @ post @ js ''/dashboard/entry/'' @ ident"
    by (simp add: getEntryUrl_def)
next
  assume "\<not> includes_str (ycbUrl preferences) (js ''/backend'')"
  then show "getEntryUrl preferences ident = ycbUrl preferences @ js ''/dashboard/entry/'' @ ident"
    by (simp add: getEntryUrl_def replace_absent)
next
  show "suffix (js ''/entry/'' @ ident) (getEntryUrl preferences ident)"
    by (rule getEntryUrl_suffix)
qed

theorem getEntryUrl_deletes_first_backend_witness:
  "\<not> includes_str (js ''https://kb.example.org'' @ butlast (js ''/backend'')) (js ''/backend'')
   \<and> getEntryUrl \<lparr>apiKey = js ''k'', ycbUrl = js ''https://kb.example.org/backend/old/backend''\<rparr>
         (js ''42'')
       = js ''https://kb.example.org/old/backend/dashboard/entry/42''
   \<and> \<not> includes_str (js ''http://localhost:3000'') (js ''/backend'')
   \<and> getEntryUrl \<lparr>apiKey = js ''k'', ycbUrl = js ''http://localhost:3000''\<rparr> (js ''42'')
       = js ''http://localhost:3000/dashboard/entry/42''
   \<and> suffix (js ''/entry/42'')
         (getEntryUrl \<lparr>apiKey = js ''k'', ycbUrl = js ''http://localhost:3000''\<rparr> (js ''42''))"
  using getEntryUrl_deletes_first_backend
    [of "\<lparr>apiKey = js ''k'', ycbUrl = js ''https://kb.example.org/backend/old/backend''\<rparr>"
        "js ''https://kb.example.org''" "js ''/old/backend''" "js ''42''"]
    getEntryUrl_deletes_first_backend
    [of "\<lparr>apiKey = js ''k'', ycbUrl = js ''http://localhost:3000''\<rparr>" "[]" "[]" "js ''42''"]
  by (simp add: js_def suffix_to_prefix)

text \<open>
  C7, as stated: the display URL is the base URL with its backend segment replaced by
  the dashboard segment, followed by \<open>/entry/{id}\<close>. The code deletes the segment and
  appends \<open>/dashboard/entry/{id}\<close> at the end instead, which is another URL as soon as
  something follows \<open>/backend\<close> in the base URL.
\<close>

theorem entryUrl_substitution_counterexample:
  "getEntryUrl \<lparr>apiKey = js ''k'', ycbUrl = js ''https://kb.example.org/backend/v2''\<rparr> (js ''42'')
     = js ''https://kb.example.org/v2/dashboard/entry/42''
   \<and> entryUrl_as_specified
         \<lparr>apiKey = js ''k'', ycbUrl = js ''https://kb.example.org/backend/v2''\<rparr> (js ''42'')
     = js ''https://kb.example.org/dashboard/v2/entry/42''
   \<and> getEntryUrl \<lparr>apiKey = js ''k'', ycbUrl = js ''https://kb.example.org/backend/v2''\<rparr> (js ''42'')
     \<noteq> entryUrl_as_specified
         \<lparr>apiKey = js ''k'', ycbUrl = js ''https://kb.example.org/backend/v2''\<rparr> (js ''42'')"
  by (simp add: getEntryUrl_def entryUrl_as_specified_def js_def)

text \<open>
  C7, amended. For every entry id, the display URL is the base URL with its first
  \<open>/backend\<close> deleted, followed by \<open>/dashboard/entry/{id}\<close>. When the first \<open>/backend\<close> of
  the base URL is at its end, as in the default base URL, this is the base URL with the
  backend segment replaced by the dashboard segment, followed by \<open>/entry/{id}\<close>. The
  resulting URL always ends with the entry's id, and so contains it verbatim.
\<close>

theorem getEntryUrl_substitution_when_backend_last:
  "getEntryUrl preferences ident
     = replace (js ''/backend'') [] (ycbUrl preferences) @ js ''/dashboard/entry/'' @ ident
   \<and> (ycbUrl preferences = pre @ js ''/backend''
        \<and> \<not> includes_str (pre @ butlast (js ''/backend'')) (js ''/backend'') \<longrightarrow>
      getEntryUrl preferences ident = entryUrl_as_specified preferences ident)
   \<and> suffix ident (getEntryUrl preferences ident)
   \<and> includes_str (getEntryUrl preferences ident) ident"
proof (intro conjI impI)
  assume a: "ycbUrl preferences = pre @ js ''/backend''
      \<and> \<not> includes_str (pre @ butlast (js ''/backend'')) (js ''/backend'')"
  then have first: "\<not> includes_str (pre @ butlast (js ''/backend'')) (js ''/backend'')"
    by simp
  have del: "replace (js ''/backend'') [] (pre @ js ''/backend'' @ []) = pre @ [] @ []"
    using first by (rule replace_first)
  have sub: "replace (js ''/backend'') (js ''/dashboard'') (pre @ js ''/backend'' @ [])
      = pre @ js ''/dashboard'' @ []"
    using first by (rule replace_first)
  have "js ''/dashboard/entry/'' = js ''/dashboard'' @ js ''/entry/''"
    by (simp add: js_def)
  then show "getEntryUrl preferences ident = entryUrl_as_specified preferences ident"
    using a del sub by (simp add: getEntryUrl_def entryUrl_as_specified_def)
next
  show "getEntryUrl preferences ident
      = replace (js ''/backend'') [] (ycbUrl preferences) @ js ''/dashboard/entry/'' @ ident"
    by (simp add: getEntryUrl_def)
next
  show sf: "suffix ident (getEntryUrl preferences ident)"
    by (simp add: getEntryUrl_def suffix_def)
  then show "includes_str (getEntryUrl preferences ident) ident"
    by (simp add: includes_str_sublist)
qed

theorem getEntryUrl_substitution_when_backend_last_witness:
  "\<not> includes_str (js ''https://yourcommonbase.com'' @ butlast (js ''/backend'')) (js ''/backend'')
   \<and> getEntryUrl \<lparr>apiKey = js ''k'', ycbUrl = js ''https://yourcommonbase.com/backend''\<rparr> (js ''42'')
       = entryUrl_as_specified
           \<lparr>apiKey = js ''k'', ycbUrl = js ''https://yourcommonbase.com/backend''\<rparr> (js ''42'')
   \<and> getEntryUrl \<lparr>apiKey = js ''k'', ycbUrl = js ''https://yourcommonbase.com/backend''\<rparr> (js ''42'')
       = js ''https://yourcommonbase.com/dashboard/entry/42''
   \<and> suffix (js ''42'')
       (getEntryUrl \<lparr>apiKey = js ''k'', ycbUrl = js ''https://yourcommonbase.com/backend''\<rparr> (js ''42''))"
  using getEntryUrl_substitution_when_backend_last
    [of "\<lparr>apiKey = js ''k'', ycbUrl = js ''https://yourcommonbase.com/backend''\<rparr>"
        "js ''42''" "js ''https://yourcommonbase.com''"]
  by (simp add: js_def entryUrl_as_specified_def suffix_to_prefix)

section \<open>The two searches\<close>

lemma trim_empty_iff: "trim s = [] \<longleftrightarrow> list_all isWhiteSpace s"
proof -
  have "trim s = [] \<longleftrightarrow> (\<forall>c\<in>set (dropWhile isWhiteSpace s). isWhiteSpace c)"
    by (simp add: trim_def dropWhile_eq_Nil_conv)
  also have "\<dots> \<longleftrightarrow> dropWhile isWhiteSpace s = []"
  proof
    assume all: "\<forall>c\<in>set (dropWhile isWhiteSpace s). isWhiteSpace c"
    show "dropWhile isWhiteSpace s = []"
    proof (rule ccontr)
      assume ne: "dropWhile isWhiteSpace s \<noteq> []"
      then have "\<not> isWhiteSpace (hd (dropWhile isWhiteSpace s))"
        by (rule hd_dropWhile)
      moreover have "hd (dropWhile isWhiteSpace s) \<in> set (dropWhile isWhiteSpace s)"
        using ne by simp
      ultimately show False using all by blast
    qed
  next
    assume "dropWhile isWhiteSpace s = []"
    then show "\<forall>c\<in>set (dropWhile isWhiteSpace s). isWhiteSpace c"
      by (metis empty_iff empty_set)
  qed
  also have "\<dots> \<longleftrightarrow> list_all isWhiteSpace s"
    by (simp add: dropWhile_eq_Nil_conv list_all_iff)
  finally show ?thesis .
qed

text \<open>
  C3. For every query that is empty or consists of white space only, the lexical search
  and the semantic search each set their result sequence to empty and return: nothing
  else of the state changes, and in particular no request is sent, whatever the
  services would have answered.
\<close>

theorem blank_query_no_network:
  assumes "list_all isWhiteSpace query"
  shows "performMeiliSearch preferences images indexReply query st = st\<lparr>meiliSearchResults := []\<rparr>
    \<and> requests (performMeiliSearch preferences images indexReply query st) = requests st
    \<and> performSemanticSearch preferences images searchReply query st = st\<lparr>semanticResults := []\<rparr>
    \<and> requests (performSemanticSearch preferences images searchReply query st) = requests st"
proof -
  from assms have "trim query = []" by (simp add: trim_empty_iff)
  then show ?thesis
    by (simp add: performMeiliSearch_def performMeiliSearch_begin_def
        performSemanticSearch_def performSemanticSearch_begin_def split: option.split)
qed

text \<open>A query of two spaces and a tab, against services that would have answered.\<close>

theorem blank_query_no_network_witness:
  "list_all isWhiteSpace [0x20, 0x20, 0x9]
   \<and> meiliSearchResults
       (performMeiliSearch defaultPreferences imageService (IndexHits [textEntry])
          [0x20, 0x20, 0x9] (readyState\<lparr>meiliSearchResults := [imageEntry]\<rparr>)) = []
   \<and> requests
       (performMeiliSearch defaultPreferences imageService (IndexHits [textEntry])
          [0x20, 0x20, 0x9] (readyState\<lparr>meiliSearchResults := [imageEntry]\<rparr>))
       = [TokenRequest (js ''https://yourcommonbase.com/backend/token'') (js ''key'')]
   \<and> semanticResults
       (performSemanticSearch defaultPreferences imageService (HttpResponse 200 (Entries [textEntry]))
          [0x20, 0x20, 0x9] (readyState\<lparr>semanticResults := [imageEntry]\<rparr>)) = []
   \<and> requests
       (performSemanticSearch defaultPreferences imageService (HttpResponse 200 (Entries [textEntry]))
          [0x20, 0x20, 0x9] (readyState\<lparr>semanticResults := [imageEntry]\<rparr>))
       = [TokenRequest (js ''https://yourcommonbase.com/backend/token'') (js ''key'')]"
  using blank_query_no_network
    [of "[0x20, 0x20, 0x9]" defaultPreferences imageService "IndexHits [textEntry]"
        "readyState\<lparr>meiliSearchResults := [imageEntry]\<rparr>"
        "HttpResponse 200 (Entries [textEntry])"]
    blank_query_no_network
    [of "[0x20, 0x20, 0x9]" defaultPreferences imageService "IndexHits [textEntry]"
        "readyState\<lparr>semanticResults := [imageEntry]\<rparr>"
        "HttpResponse 200 (Entries [textEntry])"]
  by (simp add: isWhiteSpace_def initialState_def js_def)

text \<open>
  C9. For every lexical search that fails with a transport or index error, the
  operation writes a diagnostic to the console, sets the lexical result sequence to
  empty and shows no toast. The same holds for the second part of the search alone,
  whatever happened between the query and its failure.
\<close>

theorem lexical_failure_is_silent:
  assumes "searchClient st = Some token" and "trim query \<noteq> []"
  shows "performMeiliSearch preferences images IndexError query st
     = st\<lparr>isLoadingMeiliSearch := False,
           requests := requests st @ [IndexQuery token (js ''ycb_fts_staging'') query 20],
           console := console st @ [js ''MeiliSearch error:''],
           meiliSearchResults := []\<rparr>
   \<and> console (performMeiliSearch preferences images IndexError query st)
       = console st @ [js ''MeiliSearch error:'']
   \<and> meiliSearchResults (performMeiliSearch preferences images IndexError query st) = []
   \<and> toasts (performMeiliSearch preferences images IndexError query st) = toasts st
   \<and> console (performMeiliSearch_settle preferences images IndexError st')
       = console st' @ [js ''MeiliSearch error:'']
   \<and> meiliSearchResults (performMeiliSearch_settle preferences images IndexError st') = []
   \<and> toasts (performMeiliSearch_settle preferences images IndexError st') = toasts st'"
  using assms
  by (simp add: performMeiliSearch_def performMeiliSearch_begin_def performMeiliSearch_settle_def)

theorem lexical_failure_is_silent_witness:
  "searchClient (readyState\<lparr>meiliSearchResults := [textEntry]\<rparr>) = Some (js ''token'')
   \<and> trim (js ''rust'') \<noteq> []
   \<and> console
       (performMeiliSearch defaultPreferences imageService IndexError (js ''rust'')
          (readyState\<lparr>meiliSearchResults := [textEntry]\<rparr>))
       = [js ''MeiliSearch error:'']
   \<and> meiliSearchResults
       (performMeiliSearch defaultPreferences imageService IndexError (js ''rust'')
          (readyState\<lparr>meiliSearchResults := [textEntry]\<rparr>)) = []
   \<and> toasts
       (performMeiliSearch defaultPreferences imageService IndexError (js ''rust'')
          (readyState\<lparr>meiliSearchResults := [textEntry]\<rparr>)) = []"
  using lexical_failure_is_silent
    [of "readyState\<lparr>meiliSearchResults := [textEntry]\<rparr>" "js ''token''" "js ''rust''"
        defaultPreferences imageService]
  by (simp add: initialState_def trim_def isWhiteSpace_def js_def)

text \<open>
  C4. For every semantic search whose request was sent and whose reply is a response
  with a status outside 200 to 299, or no response at all, the outcome is the one
  failure path whatever the status and the body: the failure toast is shown,
  \<open>semanticResults\<close> is set to empty, and the lexical results are left as they were. The
  same holds for the second part of the search alone.
\<close>

theorem semantic_failure_single_path:
  assumes "trim query \<noteq> []"
    and "reply = TransportError \<or> (\<exists>status body. reply = HttpResponse status body \<and> \<not> ok status)"
  shows "performSemanticSearch preferences images reply query st
     = semanticSearchFailed (fst (performSemanticSearch_begin preferences query st))
   \<and> toasts (performSemanticSearch preferences images reply query st)
       = toasts st @ [Toast Failure (js ''Search Error'') (js ''Failed to perform semantic search'')]
   \<and> semanticResults (performSemanticSearch preferences images reply query st) = []
   \<and> meiliSearchResults (performSemanticSearch preferences images reply query st)
       = meiliSearchResults st
   \<and> performSemanticSearch_settle preferences images reply st' = semanticSearchFailed st'
   \<and> toasts (semanticSearchFailed st')
       = toasts st' @ [Toast Failure (js ''Search Error'') (js ''Failed to perform semantic search'')]
   \<and> semanticResults (semanticSearchFailed st') = []
   \<and> meiliSearchResults (semanticSearchFailed st') = meiliSearchResults st'"
  using assms
  by (auto simp: performSemanticSearch_def performSemanticSearch_begin_def
      performSemanticSearch_settle_def semanticSearchFailed_def)

text \<open>
  An invalid key answered with status 401 and an unusable body, a status 500 whose body
  is a well-formed array of entries, and a failed transport: the same outcome, with the
  lexical results still in place.
\<close>

theorem semantic_failure_single_path_witness:
  "trim (js ''rust'') \<noteq> [] \<and> \<not> ok 401 \<and> \<not> ok 500
   \<and> toasts
       (performSemanticSearch defaultPreferences imageService (HttpResponse 401 Unusable)
          (js ''rust'') (readyState\<lparr>meiliSearchResults := [textEntry], semanticResults := [imageEntry]\<rparr>))
       = [Toast Failure (js ''Search Error'') (js ''Failed to perform semantic search'')]
   \<and> semanticResults
       (performSemanticSearch defaultPreferences imageService (HttpResponse 401 Unusable)
          (js ''rust'') (readyState\<lparr>meiliSearchResults := [textEntry], semanticResults := [imageEntry]\<rparr>))
       = []
   \<and> meiliSearchResults
       (performSemanticSearch defaultPreferences imageService (HttpResponse 401 Unusable)
          (js ''rust'') (readyState\<lparr>meiliSearchResults := [textEntry], semanticResults := [imageEntry]\<rparr>))
       = [textEntry]
   \<and> performSemanticSearch defaultPreferences imageService (HttpResponse 500 (Entries [textEntry]))
          (js ''rust'') (readyState\<lparr>meiliSearchResults := [textEntry], semanticResults := [imageEntry]\<rparr>)
       = performSemanticSearch defaultPreferences imageService (HttpResponse 401 Unusable)
          (js ''rust'') (readyState\<lparr>meiliSearchResults := [textEntry], semanticResults := [imageEntry]\<rparr>)
   \<and> performSemanticSearch defaultPreferences imageService TransportError
          (js ''rust'') (readyState\<lparr>meiliSearchResults := [textEntry], semanticResults := [imageEntry]\<rparr>)
       = performSemanticSearch defaultPreferences imageService (HttpResponse 401 Unusable)
          (js ''rust'') (readyState\<lparr>meiliSearchResults := [textEntry], semanticResults := [imageEntry]\<rparr>)"
proof -
  have q: "trim (js ''rust'') \<noteq> []"
    by (simp add: trim_def isWhiteSpace_def js_def)
  have s: "\<not> ok 401 \<and> \<not> ok 500"
    by (simp add: ok_def)
  show ?thesis
    using q s
      semantic_failure_single_path
        [OF q, of "HttpResponse 401 Unusable" defaultPreferences imageService
           "readyState\<lparr>meiliSearchResults := [textEntry], semanticResults := [imageEntry]\<rparr>"]
      semantic_failure_single_path
        [OF q, of "HttpResponse 500 (Entries [textEntry])" defaultPreferences imageService
           "readyState\<lparr>meiliSearchResults := [textEntry], semanticResults := [imageEntry]\<rparr>"]
      semantic_failure_single_path
        [OF q, of TransportError defaultPreferences imageService
           "readyState\<lparr>meiliSearchResults := [textEntry], semanticResults := [imageEntry]\<rparr>"]
    by (simp add: initialState_def performSemanticSearch_begin_def semanticSearchFailed_def js_def)
qed

section \<open>Image hydration\<close>

lemma withImage_other:
  "type_str (metadata hit) \<noteq> Some (js ''image'') \<Longrightarrow> withImage preferences images hit = (hit, [])"
  by (simp add: withImage_def)

lemma withImage_image:
  "type_str (metadata hit) = Some (js ''image'') \<Longrightarrow>
   withImage preferences images hit
     = (hit\<lparr>image_str := fst (fetchImage preferences images (id_str hit))\<rparr>,
        [ImagesRequest (ycbUrl preferences @ js ''/fetchImagesByIDs'') (apiKey preferences)
           [id_str hit]])"
  by (simp add: withImage_def fetchImage_def)

lemma resultsWithImages_sent:
  "snd (resultsWithImages preferences images hits)
     = map (\<lambda>hit. ImagesRequest (ycbUrl preferences @ js ''/fetchImagesByIDs'')
                    (apiKey preferences) [id_str hit])
         (filter (\<lambda>hit. type_str (metadata hit) = Some (js ''image'')) hits)"
  by (induction hits) (simp_all add: resultsWithImages_def withImage_other withImage_image)

lemma resultsWithImages_nth:
  "i < length hits \<Longrightarrow>
   fst (resultsWithImages preferences images hits) ! i = fst (withImage preferences images (hits ! i))"
  by (simp add: resultsWithImages_def)

text \<open>
  C6. In the batch of either search, an entry whose \<open>metadata.type\<close> is not \<open>image\<close>
  comes out as it went in, its \<open>image\<close> field untouched, and its callback sends no
  request; an entry whose \<open>image\<close> field differs from what the service sent is of type
  \<open>image\<close>. The image requests of a batch are exactly one per entry of type \<open>image\<close>,
  each carrying that entry's id, in the order of the batch. The results and the
  requests of both searches are those of the batch.
\<close>

theorem image_only_for_image_entries:
  assumes "resultsWithImages preferences images hits = (results, sent)"
  shows "length results = length hits
   \<and> (\<forall>i<length hits. type_str (metadata (hits ! i)) \<noteq> Some (js ''image'') \<longrightarrow>
         results ! i = hits ! i \<and> withImage preferences images (hits ! i) = (hits ! i, []))
   \<and> (\<forall>i<length hits. image_str (results ! i) \<noteq> image_str (hits ! i) \<longrightarrow>
         type_str (metadata (hits ! i)) = Some (js ''image''))
   \<and> sent = map (\<lambda>hit. ImagesRequest (ycbUrl preferences @ js ''/fetchImagesByIDs'')
                    (apiKey preferences) [id_str hit])
               (filter (\<lambda>hit. type_str (metadata hit) = Some (js ''image'')) hits)
   \<and> (searchClient st = Some token \<and> trim query \<noteq> [] \<longrightarrow>
        meiliSearchResults (performMeiliSearch preferences images (IndexHits hits) query st) = results
        \<and> requests (performMeiliSearch preferences images (IndexHits hits) query st)
            = requests st @ IndexQuery token (js ''ycb_fts_staging'') query 20 # sent)
   \<and> (trim query \<noteq> [] \<and> ok status \<longrightarrow>
        semanticResults
          (performSemanticSearch preferences images (HttpResponse status (Entries hits)) query st)
          = results
        \<and> requests
          (performSemanticSearch preferences images (HttpResponse status (Entries hits)) query st)
            = requests st @ SearchRequest (ycbUrl preferences @ js ''/search'')
                (apiKey preferences) query 5 (35 / 100) # sent)"
proof -
  from assms have res: "results = fst (resultsWithImages preferences images hits)"
    and snt: "sent = snd (resultsWithImages preferences images hits)" by simp_all
  have len: "length results = length hits"
    by (simp add: res resultsWithImages_def)
  have other: "\<forall>i<length hits. type_str (metadata (hits ! i)) \<noteq> Some (js ''image'') \<longrightarrow>
         results ! i = hits ! i \<and> withImage preferences images (hits ! i) = (hits ! i, [])"
    by (simp add: res resultsWithImages_nth withImage_other)
  have only: "\<forall>i<length hits. image_str (results ! i) \<noteq> image_str (hits ! i) \<longrightarrow>
         type_str (metadata (hits ! i)) = Some (js ''image'')"
    using other by auto
  have sent: "sent = map (\<lambda>hit. ImagesRequest (ycbUrl preferences @ js ''/fetchImagesByIDs'')
                    (apiKey preferences) [id_str hit])
               (filter (\<lambda>hit. type_str (metadata hit) = Some (js ''image'')) hits)"
    by (simp add: snt resultsWithImages_sent)
  have lexical: "searchClient st = Some token \<and> trim query \<noteq> [] \<longrightarrow>
        meiliSearchResults (performMeiliSearch preferences images (IndexHits hits) query st) = results
        \<and> requests (performMeiliSearch preferences images (IndexHits hits) query st)
            = requests st @ IndexQuery token (js ''ycb_fts_staging'') query 20 # sent"
    using assms
    by (simp add: performMeiliSearch_def performMeiliSearch_begin_def performMeiliSearch_settle_def)
  have semantic: "trim query \<noteq> [] \<and> ok status \<longrightarrow>
        semanticResults
          (performSemanticSearch preferences images (HttpResponse status (Entries hits)) query st)
          = results
        \<and> requests
          (performSemanticSearch preferences images (HttpResponse status (Entries hits)) query st)
            = requests st @ SearchRequest (ycbUrl preferences @ js ''/search'')
                (apiKey preferences) query 5 (35 / 100) # sent"
    using assms
    by (simp add: performSemanticSearch_def performSemanticSearch_begin_def
        performSemanticSearch_settle_def)
  from len other only sent lexical semantic show ?thesis by blast
qed

theorem image_only_for_image_entries_witness:
  "resultsWithImages defaultPreferences imageService [textEntry, imageEntry]
     = ([textEntry, imageEntry\<lparr>image_str := Some (js ''https://img.example.com/e2'')\<rparr>],
        [ImagesRequest (js ''https://yourcommonbase.com/backend/fetchImagesByIDs'') (js ''key'')
           [js ''e2'']])
   \<and> type_str (metadata textEntry) \<noteq> Some (js ''image'')
   \<and> image_str (imageEntry\<lparr>image_str := Some (js ''https://img.example.com/e2'')\<rparr>)
       \<noteq> image_str imageEntry
   \<and> type_str (metadata imageEntry) = Some (js ''image'')
   \<and> searchClient readyState = Some (js ''token'') \<and> trim (js ''rust'') \<noteq> [] \<and> ok 200
   \<and> meiliSearchResults
        (performMeiliSearch defaultPreferences imageService (IndexHits [textEntry, imageEntry])
           (js ''rust'') readyState)
       = [textEntry, imageEntry\<lparr>image_str := Some (js ''https://img.example.com/e2'')\<rparr>]
   \<and> semanticResults
        (performSemanticSearch defaultPreferences imageService
           (HttpResponse 200 (Entries [textEntry, imageEntry])) (js ''rust'') readyState)
       = [textEntry, imageEntry\<lparr>image_str := Some (js ''https://img.example.com/e2'')\<rparr>]
   \<and> requests
        (performSemanticSearch defaultPreferences imageService
           (HttpResponse 200 (Entries [textEntry, imageEntry])) (js ''rust'') readyState)
       = [TokenRequest (js ''https://yourcommonbase.com/backend/token'') (js ''key''),
          SearchRequest (js ''https://yourcommonbase.com/backend/search'') (js ''key'')
            (js ''rust'') 5 (35 / 100),
          ImagesRequest (js ''https://yourcommonbase.com/backend/fetchImagesByIDs'') (js ''key'')
            [js ''e2'']]"
proof -
  have h: "resultsWithImages defaultPreferences imageService [textEntry, imageEntry]
     = ([textEntry, imageEntry\<lparr>image_str := Some (js ''https://img.example.com/e2'')\<rparr>],
        [ImagesRequest (js ''https://yourcommonbase.com/backend/fetchImagesByIDs'') (js ''key'')
           [js ''e2'']])"
    by (simp add: resultsWithImages_def withImage_def fetchImage_def js_def)
  have q: "searchClient readyState = Some (js ''token'') \<and> trim (js ''rust'') \<noteq> [] \<and> ok 200"
    by (simp add: trim_def isWhiteSpace_def js_def ok_def)
  show ?thesis
    using h q image_only_for_image_entries
      [OF h, of readyState "js ''token''" "js ''rust''" 200]
    by (simp add: initialState_def js_def)
qed

section \<open>Search orchestrator\<close>

lemma handleSearchTextChange_clears:
  "semanticResults (fst (handleSearchTextChange text st)) = []"
  by (simp add: handleSearchTextChange_def performMeiliSearch_begin_def split: option.split)

lemma handleSearchTextChange_in_flight:
  "searchClient st \<noteq> None \<Longrightarrow> trim text \<noteq> [] \<Longrightarrow> snd (handleSearchTextChange text st)"
  by (auto simp: handleSearchTextChange_def performMeiliSearch_begin_def split: option.split)

text \<open>
  With no semantic search in flight and no semantic results on display, every event
  other than the trigger of a semantic search leaves both so.
\<close>

lemma fire_keeps_quiet:
  assumes "semanticInFlight s = []" and "semanticResults (view s) = []"
    and "e \<noteq> EnterPress" and "fire preferences images e s = Some s'"
  shows "semanticInFlight s' = [] \<and> semanticResults (view s') = []"
proof (cases e)
  case (SearchTextChange t)
  with assms show ?thesis
    by (auto simp: handleSearchTextChange_def performMeiliSearch_begin_def
        split: prod.splits option.splits if_splits)
next
  case EnterPress
  with assms show ?thesis by simp
next
  case (TokenSettles reply)
  with assms show ?thesis
    by (cases reply) (auto simp: initializeMeiliSearch_settle_def split: if_splits)
next
  case (LexicalSettles i reply)
  with assms show ?thesis
    by (cases reply) (auto simp: performMeiliSearch_settle_def split: if_splits prod.splits)
next
  case (SemanticSettles i reply)
  with assms show ?thesis by (auto split: if_splits)
qed

lemma run_keeps_quiet:
  "semanticInFlight s = [] \<Longrightarrow> semanticResults (view s) = [] \<Longrightarrow> EnterPress \<notin> set es \<Longrightarrow>
   run preferences images es s = Some s' \<Longrightarrow>
   semanticInFlight s' = [] \<and> semanticResults (view s') = []"
proof (induction es arbitrary: s)
  case Nil
  then show ?case by simp
next
  case (Cons e es)
  from Cons.prems(4) obtain s1 where f: "fire preferences images e s = Some s1"
    and r: "run preferences images es s1 = Some s'"
    by (auto split: option.splits)
  from Cons.prems(3) have ne: "e \<noteq> EnterPress" and rest: "EnterPress \<notin> set es" by auto
  have "semanticInFlight s1 = [] \<and> semanticResults (view s1) = []"
    by (rule fire_keeps_quiet [OF Cons.prems(1) Cons.prems(2) ne f])
  then have "semanticInFlight s1 = []" and "semanticResults (view s1) = []" by simp_all
  then show ?case using rest r by (rule Cons.IH)
qed

text \<open>
  C5, as stated: after a query-text change no state is reachable in which a stale
  semantic result set is displayed after the user resumed typing. A semantic search
  that is in flight when the user types is not cancelled. The user types \<open>r\<close>, the
  lexical results arrive, the user triggers the semantic search from one of them and
  types \<open>ru\<close> (there is nothing to clear yet); then the reply to the semantic search for
  \<open>r\<close> arrives: its results are on display beside the text \<open>ru\<close>, while the lexical
  query for \<open>ru\<close> is still in flight.
\<close>

theorem stale_semantic_results_counterexample:
  "map_option (\<lambda>s. (searchText (view s), semanticResults (view s), lexicalInFlight s))
     (run defaultPreferences imageService
        [TokenSettles (TokenGranted (js ''token'')),
         SearchTextChange (js ''r''),
         LexicalSettles 0 (IndexHits [textEntry]),
         EnterPress,
         SearchTextChange (js ''ru''),
         SemanticSettles 0 (HttpResponse 200 (Entries [textEntry]))]
        (mount defaultPreferences))
   = Some (js ''ru'', [textEntry], [js ''ru''])"
  by (simp add: mount_def initialState_def initializeMeiliSearch_settle_def
      handleSearchTextChange_def performMeiliSearch_begin_def performMeiliSearch_settle_def
      handleEnterPress_def semanticSearchOffered_def
      performSemanticSearch_begin_def performSemanticSearch_settle_def ok_def
      resultsWithImages_def withImage_def without_def trim_def isWhiteSpace_def js_def)

text \<open>
  C5, amended. For every query-text change event, \<open>semanticResults\<close> is empty when the
  handler returns, and the lexical query the handler issued is then still in flight:
  the clearing precedes its resolution. If no semantic search is in flight when the
  user types, \<open>semanticResults\<close> stays empty through every later event up to the next
  trigger of a semantic search.
\<close>

theorem typing_clears_semantic_results:
  "semanticResults (fst (handleSearchTextChange text st)) = []
   \<and> (fire preferences images (SearchTextChange text) s = Some s' \<longrightarrow>
        semanticResults (view s') = []
        \<and> (searchClient (view s) \<noteq> None \<and> trim text \<noteq> [] \<longrightarrow>
             lexicalInFlight s' = lexicalInFlight s @ [text]))
   \<and> (semanticInFlight s = [] \<and> EnterPress \<notin> set es
        \<and> run preferences images (SearchTextChange text # es) s = Some s'' \<longrightarrow>
        semanticResults (view s'') = [])"
proof (intro conjI impI)
  show "semanticResults (fst (handleSearchTextChange text st)) = []"
    by (rule handleSearchTextChange_clears)
next
  assume f: "fire preferences images (SearchTextChange text) s = Some s'"
  then have v: "view s' = fst (handleSearchTextChange text (view s))"
    by (auto split: prod.splits)
  then show "semanticResults (view s') = []"
    by (simp add: handleSearchTextChange_clears)
  assume "searchClient (view s) \<noteq> None \<and> trim text \<noteq> []"
  then have "snd (handleSearchTextChange text (view s))"
    by (simp add: handleSearchTextChange_in_flight)
  with f show "lexicalInFlight s' = lexicalInFlight s @ [text]"
    by (auto split: prod.splits)
next
  assume a: "semanticInFlight s = [] \<and> EnterPress \<notin> set es
        \<and> run preferences images (SearchTextChange text # es) s = Some s''"
  then obtain s1 where f: "fire preferences images (SearchTextChange text) s = Some s1"
    and r: "run preferences images es s1 = Some s''"
    by (auto split: option.splits prod.splits)
  from f have "view s1 = fst (handleSearchTextChange text (view s))"
    and "semanticInFlight s1 = semanticInFlight s"
    by (auto split: prod.splits)
  with a have q1: "semanticInFlight s1 = []" and q2: "semanticResults (view s1) = []"
    by (simp_all add: handleSearchTextChange_clears)
  from a have q3: "EnterPress \<notin> set es" by simp
  have "semanticInFlight s'' = [] \<and> semanticResults (view s'') = []"
    by (rule run_keeps_quiet [OF q1 q2 q3 r])
  then show "semanticResults (view s'') = []" by simp
qed

text \<open>
  Both sections are on display for \<open>r\<close> and nothing is in flight. The user types \<open>ru\<close>:
  the semantic results are gone while the lexical query is in flight, and they stay
  gone when the user types on and both replies arrive, the later one first.
\<close>

theorem typing_clears_semantic_results_witness:
  "run defaultPreferences imageService
      [TokenSettles (TokenGranted (js ''token'')), SearchTextChange (js ''r''),
       LexicalSettles 0 (IndexHits [textEntry]), EnterPress,
       SemanticSettles 0 (HttpResponse 200 (Entries [textEntry]))]
      (mount defaultPreferences)
     = Some showingSemanticResults
   \<and> semanticInFlight showingSemanticResults = []
   \<and> searchClient (view showingSemanticResults) \<noteq> None \<and> trim (js ''ru'') \<noteq> []
   \<and> map_option (\<lambda>s. (semanticResults (view s), lexicalInFlight s))
       (fire defaultPreferences imageService (SearchTextChange (js ''ru'')) showingSemanticResults)
     = Some ([], [js ''ru''])
   \<and> EnterPress \<notin> set [SearchTextChange (js ''rus''),
         LexicalSettles 1 (IndexHits [textEntry]), LexicalSettles 0 IndexError]
   \<and> map_option (\<lambda>s. (semanticResults (view s), meiliSearchResults (view s), lexicalInFlight s))
       (run defaultPreferences imageService
          [SearchTextChange (js ''ru''), SearchTextChange (js ''rus''),
           LexicalSettles 1 (IndexHits [textEntry]), LexicalSettles 0 IndexError]
          showingSemanticResults)
     = Some ([], [], [])"
  using typing_clears_semantic_results
    [of "js ''ru''" "view showingSemanticResults" defaultPreferences imageService
        showingSemanticResults
        "the (fire defaultPreferences imageService (SearchTextChange (js ''ru''))
           showingSemanticResults)"
        "[SearchTextChange (js ''rus''),
          LexicalSettles 1 (IndexHits [textEntry]), LexicalSettles 0 IndexError]"
        "the (run defaultPreferences imageService
          [SearchTextChange (js ''ru''), SearchTextChange (js ''rus''),
           LexicalSettles 1 (IndexHits [textEntry]), LexicalSettles 0 IndexError]
          showingSemanticResults)"]
  by (simp add: mount_def initialState_def initializeMeiliSearch_settle_def
      handleSearchTextChange_def performMeiliSearch_begin_def handleEnterPress_def
      performMeiliSearch_settle_def semanticSearchOffered_def
      performSemanticSearch_begin_def performSemanticSearch_settle_def ok_def
      resultsWithImages_def withImage_def without_def trim_def isWhiteSpace_def js_def)

end
